theory Spec2Isabelle
  imports Main
begin

section \<open>The alert component of Home Assistant\<close>

text \<open>
  A shallow embedding of \<^verbatim>\<open>homeassistant/components/alert/__init__.py\<close> and
  \<^verbatim>\<open>const.py\<close>. The \<^verbatim>\<open>Alert\<close> object is a record of its fields, the part of
  \<^verbatim>\<open>hass\<close> it talks to (clock, point-in-time listeners, scripts, state machine) is
  a second record, and every coroutine of the class is a function on the pair of both
  that returns the pair as the coroutine leaves it, together with the exception it
  raised, if any. Python keeps the assignments made before an exception, so does the
  model.
\<close>

subsection \<open>Constants\<close>

definition DOMAIN :: string where
  "DOMAIN = ''alert''"

definition ENTITY_ID_FORMAT :: "string \<Rightarrow> string" where
  "ENTITY_ID_FORMAT object_id = DOMAIN @ ''.'' @ object_id"

definition CONF_TRIGGERED :: string where
  "CONF_TRIGGERED = ''triggered''"

definition CONF_DONE :: string where
  "CONF_DONE = ''done''"

definition DEFAULT_CAN_ACK :: bool where
  "DEFAULT_CAN_ACK = True"

definition DEFAULT_SKIP_FIRST :: bool where
  "DEFAULT_SKIP_FIRST = False"

text \<open>
  Modelled from the spec: the three state names that the module imports from
  \<^verbatim>\<open>homeassistant.const\<close>. The spec calls them firing (on), silenced (off) and
  idle.
\<close>

definition STATE_ON :: string where
  "STATE_ON = ''on''"

definition STATE_OFF :: string where
  "STATE_OFF = ''off''"

definition STATE_IDLE :: string where
  "STATE_IDLE = ''idle''"

subsection \<open>Data\<close>

text \<open>The three Python exceptions the module can raise by itself.\<close>

datatype exn = IndexError | TypeError | OverflowError

text \<open>
  An action is the opaque script configuration of the keys \<^verbatim>\<open>triggered\<close> and
  \<^verbatim>\<open>done\<close>; \<^verbatim>\<open>Script(hass, action)\<close> wraps it, also when the action is absent.
\<close>

type_synonym action = string

datatype script = Script "action option"

text \<open>
  The fields of \<^verbatim>\<open>self\<close>, under the source's names without the leading underscore.
  Durations and the clock are whole minutes, so that \<^verbatim>\<open>timedelta(minutes=val)\<close> is
  \<open>val\<close> itself where it exists, and a point in time is the number of minutes since
  \<^verbatim>\<open>datetime.min\<close>, the first minute of year 1. \<open>cancel\<close> holds the handle of the
  listener whose removal function \<^verbatim>\<open>self._cancel\<close> is, or \<open>None\<close>.
\<close>

record alert =
  name :: string
  alert_state :: string
  skip_first :: bool
  can_ack :: bool
  triggered_script :: script
  done_script :: script
  delay :: "int list"
  next_delay :: int
  triggered :: bool
  ack :: bool
  cancel :: "nat option"
  execute_done_script :: bool
  entity_id :: string

text \<open>
  What the alert reaches through \<^verbatim>\<open>self.hass\<close>: the clock read by \<^verbatim>\<open>now()\<close>, the
  pending point-in-time listeners (handle and due time), the next free handle, the
  scripts whose \<^verbatim>\<open>async_run\<close> has been called, the coroutine objects that were built
  by a call of \<^verbatim>\<open>_execute_script\<close> and dropped without \<^verbatim>\<open>await\<close> (each with the
  argument it was built for), the states written by \<^verbatim>\<open>async_update_ha_state\<close> and
  the number of writes requested by \<^verbatim>\<open>async_schedule_update_ha_state\<close>.
\<close>

record hass =
  now :: int
  timers :: "(nat \<times> int) list"
  next_handle :: nat
  script_runs :: "script list"
  never_awaited :: "script option list"
  state_writes :: "string list"
  scheduled_writes :: nat

type_synonym world = "alert \<times> hass"

type_synonym result = "world \<times> exn option"

text \<open>
  Sequencing of two statements: the second runs only when the first raised nothing.
\<close>

definition and_then :: "result \<Rightarrow> (world \<Rightarrow> result) \<Rightarrow> result" where
  "and_then r f = (case r of (w, Some e) \<Rightarrow> (w, Some e) | (w, None) \<Rightarrow> f w)"

text \<open>
  Python's \<^verbatim>\<open>xs[i]\<close>: an index below zero counts from the end, an index outside the
  list raises.
\<close>

definition getitem :: "'a list \<Rightarrow> int \<Rightarrow> exn + 'a" where
  "getitem xs i =
     (if 0 \<le> i \<and> i < int (length xs) then Inr (xs ! nat i)
      else if i < 0 \<and> - int (length xs) \<le> i then Inr (xs ! nat (int (length xs) + i))
      else Inl IndexError)"

text \<open>
  Python's \<^verbatim>\<open>timedelta\<close> spans 999999999 days to either side and its \<^verbatim>\<open>datetime\<close>
  ends with year 9999, which has day number 3652059: \<^verbatim>\<open>timedelta(minutes=val)\<close>
  outside the span and a sum \<^verbatim>\<open>datetime + timedelta\<close> outside the calendar raise
  \<^verbatim>\<open>OverflowError\<close>.
\<close>

definition TIMEDELTA_MIN :: int where
  "TIMEDELTA_MIN = - (999999999 * 1440)"

definition TIMEDELTA_MAX :: int where
  "TIMEDELTA_MAX = 999999999 * 1440 + 1439"

definition DATETIME_MAX :: int where
  "DATETIME_MAX = 3652058 * 1440 + 1439"

definition timedelta :: "int \<Rightarrow> exn + int" where
  "timedelta minutes =
     (if TIMEDELTA_MIN \<le> minutes \<and> minutes \<le> TIMEDELTA_MAX then Inr minutes
      else Inl OverflowError)"

definition datetime_add :: "int \<Rightarrow> int \<Rightarrow> exn + int" where
  "datetime_add t d =
     (if 0 \<le> t + d \<and> t + d \<le> DATETIME_MAX then Inr (t + d) else Inl OverflowError)"

subsection \<open>The collaborators\<close>

text \<open>
  Modelled from the spec: the timer service \<^verbatim>\<open>event.async_track_point_in_time\<close>
  (section 6: schedule at a timestamp, get a cancellable handle; the callback fires at
  or after the timestamp, once, unless cancelled first). Scheduling adds a listener
  under a fresh handle and returns the handle; the returned removal function takes the
  listener out and does nothing when it is no longer there.
\<close>

definition async_track_point_in_time :: "int \<Rightarrow> hass \<Rightarrow> nat \<times> hass" where
  "async_track_point_in_time point_in_time h =
     (next_handle h,
      h\<lparr>timers := timers h @ [(next_handle h, point_in_time)],
        next_handle := Suc (next_handle h)\<rparr>)"

definition async_unsub :: "nat \<Rightarrow> hass \<Rightarrow> hass" where
  "async_unsub k h = h\<lparr>timers := filter (\<lambda>p. fst p \<noteq> k) (timers h)\<rparr>"

text \<open>
  Modelled from the spec: the action runner \<^verbatim>\<open>script.async_run\<close> (section 6), which
  is recorded as a run of the script.
\<close>

definition async_run :: "script \<Rightarrow> hass \<Rightarrow> hass" where
  "async_run s h = h\<lparr>script_runs := script_runs h @ [s]\<rparr>"

subsection \<open>Properties of the entity\<close>

definition state :: "alert \<Rightarrow> string" where
  "state a = (if triggered a then (if ack a then STATE_OFF else STATE_ON) else STATE_IDLE)"

definition hidden :: "alert \<Rightarrow> bool" where
  "hidden a = (\<not> can_ack a \<or> \<not> triggered a)"

text \<open>
  Modelled from the spec: \<^verbatim>\<open>async_update_ha_state\<close> and
  \<^verbatim>\<open>async_schedule_update_ha_state\<close> of the entity base class, which publish the
  derived status; the first writes it at once, the second asks for a write.
\<close>

definition async_update_ha_state :: "world \<Rightarrow> world" where
  "async_update_ha_state w =
     (case w of (a, h) \<Rightarrow> (a, h\<lparr>state_writes := state_writes h @ [state a]\<rparr>))"

definition async_schedule_update_ha_state :: "world \<Rightarrow> world" where
  "async_schedule_update_ha_state w =
     (case w of (a, h) \<Rightarrow> (a, h\<lparr>scheduled_writes := Suc (scheduled_writes h)\<rparr>))"

subsection \<open>The constructor\<close>

text \<open>
  \<^verbatim>\<open>Alert.__init__\<close> has two parts. The comprehension
  \<^verbatim>\<open>[timedelta(minutes=val) for val in repeat]\<close> can raise, and then no alert
  exists; \<open>timedeltas\<close> is the comprehension. \<open>Alert\<close> is every assignment of the
  constructor, for the list of timedeltas the comprehension gave, and \<open>Alert_init\<close>
  is the whole constructor. The subscription to the watched entity is the source of
  the \<open>StateChange\<close> events below.
\<close>

fun timedeltas :: "int list \<Rightarrow> exn + int list" where
  "timedeltas [] = Inr []"
| "timedeltas (val # rest) =
     (case timedelta val of
        Inl e \<Rightarrow> Inl e
      | Inr d \<Rightarrow> (case timedeltas rest of Inl e \<Rightarrow> Inl e | Inr ds \<Rightarrow> Inr (d # ds)))"

definition Alert ::
  "string \<Rightarrow> string \<Rightarrow> string \<Rightarrow> string \<Rightarrow> int list \<Rightarrow> bool \<Rightarrow> bool \<Rightarrow>
   action option \<Rightarrow> action option \<Rightarrow> alert" where
  "Alert object_id nm watched_entity_id st repeat skip can triggered_action done_action =
     \<lparr>name = nm,
      alert_state = st,
      skip_first = skip,
      can_ack = can,
      triggered_script = Script triggered_action,
      done_script = Script done_action,
      delay = repeat,
      next_delay = 0,
      triggered = False,
      ack = False,
      cancel = None,
      execute_done_script = False,
      entity_id = ENTITY_ID_FORMAT object_id\<rparr>"

definition Alert_init ::
  "string \<Rightarrow> string \<Rightarrow> string \<Rightarrow> string \<Rightarrow> int list \<Rightarrow> bool \<Rightarrow> bool \<Rightarrow>
   action option \<Rightarrow> action option \<Rightarrow> exn + alert" where
  "Alert_init object_id nm watched_entity_id st repeat skip can triggered_action done_action =
     (case timedeltas repeat of
        Inl e \<Rightarrow> Inl e
      | Inr ds \<Rightarrow>
          Inr (Alert object_id nm watched_entity_id st ds skip can triggered_action
                 done_action))"

text \<open>The \<^verbatim>\<open>hass\<close> side at start-up: nothing pending, nothing run.\<close>

definition hass0 :: hass where
  "hass0 = \<lparr>now = 0, timers = [], next_handle = 0, script_runs = [], never_awaited = [],
            state_writes = [], scheduled_writes = 0\<rparr>"

subsection \<open>The coroutines of the class\<close>

text \<open>
  \<^verbatim>\<open>_execute_script\<close>: nothing for \<^verbatim>\<open>None\<close>, else the script is run.
\<close>

definition execute_script :: "script option \<Rightarrow> world \<Rightarrow> world" where
  "execute_script s w =
     (case s of None \<Rightarrow> w | Some sc \<Rightarrow> (case w of (a, h) \<Rightarrow> (a, async_run sc h)))"

text \<open>
  \<^verbatim>\<open>_trigger\<close> and \<^verbatim>\<open>_done\<close> call \<^verbatim>\<open>self._execute_script(...)\<close> as a plain
  statement, with no \<^verbatim>\<open>await\<close>. Calling an \<^verbatim>\<open>async def\<close> function builds a
  coroutine object and runs none of its body; the object is dropped at once. The call
  is therefore recorded in \<open>never_awaited\<close>, and \<open>execute_script\<close> is not entered.
\<close>

definition execute_script_not_awaited :: "script option \<Rightarrow> world \<Rightarrow> world" where
  "execute_script_not_awaited s w =
     (case w of (a, h) \<Rightarrow> (a, h\<lparr>never_awaited := never_awaited h @ [s]\<rparr>))"

text \<open>
  \<^verbatim>\<open>_schedule_trigger\<close>: the index and the sum \<^verbatim>\<open>now() + delay\<close> can both raise,
  before \<open>cancel\<close> and the cursor are assigned.
\<close>

definition schedule_trigger :: "world \<Rightarrow> result" where
  "schedule_trigger w =
     (case w of (a, h) \<Rightarrow>
        (case getitem (delay a) (next_delay a) of
           Inl e \<Rightarrow> (w, Some e)
         | Inr d \<Rightarrow>
             (case datetime_add (now h) d of
                Inl e \<Rightarrow> (w, Some e)
              | Inr next_msg \<Rightarrow>
                  (case async_track_point_in_time next_msg h of
                     (k, h') \<Rightarrow>
                       ((a\<lparr>cancel := Some k,
                           next_delay :=
                             min (next_delay a + 1) (int (length (delay a)) - 1)\<rparr>,
                         h'), None)))))"

definition trigger :: "world \<Rightarrow> result" where
  "trigger w =
     (case w of (a, h) \<Rightarrow>
        if \<not> triggered a then (w, None)
        else if \<not> ack a then
          schedule_trigger
            (execute_script_not_awaited (Some (triggered_script a))
               (a\<lparr>execute_done_script := True\<rparr>, h))
        else schedule_trigger w)"

definition done_fn :: "world \<Rightarrow> result" where
  "done_fn w =
     (case w of (a, h) \<Rightarrow>
        (execute_script_not_awaited (Some (done_script a))
           (a\<lparr>execute_done_script := False\<rparr>, h), None))"

definition begin_alerting :: "world \<Rightarrow> result" where
  "begin_alerting w =
     (case w of (a, h) \<Rightarrow>
        and_then
          (if \<not> skip_first a
           then trigger (a\<lparr>ack := False, triggered := True, next_delay := 0\<rparr>, h)
           else schedule_trigger (a\<lparr>ack := False, triggered := True, next_delay := 0\<rparr>, h))
          (\<lambda>w'. (async_schedule_update_ha_state w', None)))"

text \<open>
  \<^verbatim>\<open>end_alerting\<close> calls \<^verbatim>\<open>self._cancel()\<close> first: calling \<^verbatim>\<open>None\<close> raises
  \<^verbatim>\<open>TypeError\<close> before any field is touched.
\<close>

definition end_alerting :: "world \<Rightarrow> result" where
  "end_alerting w =
     (case w of (a, h) \<Rightarrow>
        (case cancel a of
           None \<Rightarrow> (w, Some TypeError)
         | Some k \<Rightarrow>
             and_then
               (if execute_done_script a
                then done_fn (a\<lparr>ack := False, triggered := False\<rparr>, async_unsub k h)
                else ((a\<lparr>ack := False, triggered := False\<rparr>, async_unsub k h), None))
               (\<lambda>w'. (async_schedule_update_ha_state w', None))))"

text \<open>
  \<^verbatim>\<open>watched_entity_change\<close>; \<open>to_state\<close> is the value \<^verbatim>\<open>to_state.state\<close>. The two
  tests are two separate \<^verbatim>\<open>if\<close> statements, the second reads the fields as the
  first left them.
\<close>

definition watched_entity_change :: "string \<Rightarrow> world \<Rightarrow> result" where
  "watched_entity_change to_state w =
     and_then
       (if to_state = alert_state (fst w) \<and> \<not> triggered (fst w)
        then begin_alerting w else (w, None))
       (\<lambda>w'. if to_state \<noteq> alert_state (fst w') \<and> triggered (fst w')
             then end_alerting w' else (w', None))"

definition async_turn_on :: "world \<Rightarrow> world" where
  "async_turn_on w = (case w of (a, h) \<Rightarrow> async_update_ha_state (a\<lparr>ack := False\<rparr>, h))"

definition async_turn_off :: "world \<Rightarrow> world" where
  "async_turn_off w = (case w of (a, h) \<Rightarrow> async_update_ha_state (a\<lparr>ack := True\<rparr>, h))"

definition async_toggle :: "world \<Rightarrow> world" where
  "async_toggle w = (if ack (fst w) then async_turn_on w else async_turn_off w)"

subsection \<open>Events\<close>

text \<open>
  What can happen to one alert: the watched entity reports a state, a pending listener
  fires (at its due time or later, and it is gone once it has fired), one of the three
  services is called, or time passes. Handlers run one after the other (section 5 of
  the spec); an exception ends the handler and the alert lives on with the fields as
  they are.
\<close>

datatype event =
  StateChange string
  | TimerFire nat
  | TurnOn
  | TurnOff
  | Toggle
  | Tick nat

fun step :: "event \<Rightarrow> world \<Rightarrow> result" where
  "step (StateChange s) w = watched_entity_change s w"
| "step (TimerFire k) w =
     (case map_of (timers (snd w)) k of
        None \<Rightarrow> (w, None)
      | Some t \<Rightarrow> trigger (fst w, (async_unsub k (snd w))\<lparr>now := max (now (snd w)) t\<rparr>))"
| "step TurnOn w = (async_turn_on w, None)"
| "step TurnOff w = (async_turn_off w, None)"
| "step Toggle w = (async_toggle w, None)"
| "step (Tick d) w = ((fst w, (snd w)\<lparr>now := now (snd w) + int d\<rparr>), None)"

fun run :: "event list \<Rightarrow> world \<Rightarrow> world" where
  "run [] w = w"
| "run (e # es) w = run es (fst (step e w))"

text \<open>The exceptions raised along a run, in order.\<close>

fun raised :: "event list \<Rightarrow> world \<Rightarrow> exn list" where
  "raised [] w = []"
| "raised (e # es) w =
     (case snd (step e w) of None \<Rightarrow> [] | Some x \<Rightarrow> [x]) @ raised es (fst (step e w))"

subsection \<open>Set-up\<close>

text \<open>
  One validated entry of \<^verbatim>\<open>config[DOMAIN]\<close>: the schema makes the first six keys
  present (required, two of them with defaults) and leaves the two actions optional.
  Such an entry is never falsy, so the \<^verbatim>\<open>if not cfg\<close> branch is not taken.
\<close>

record cfg =
  conf_name :: string
  conf_entity_id :: string
  conf_state :: string
  conf_repeat :: "int list"
  conf_can_ack :: bool
  conf_skip_first :: bool
  conf_triggered :: "action option"
  conf_done :: "action option"

text \<open>
  Lines 76 and 77 read \<^verbatim>\<open>cfg.get[CONF_TRIGGERED]\<close> and \<^verbatim>\<open>cfg.get[CONF_DONE]\<close>:
  the bound method \<^verbatim>\<open>cfg.get\<close> is subscripted, not called. A method object has no
  \<^verbatim>\<open>__getitem__\<close>, so Python raises \<^verbatim>\<open>TypeError\<close> whatever the key and the
  dictionary are.
\<close>

definition method_subscript :: "cfg \<Rightarrow> string \<Rightarrow> exn + action option" where
  "method_subscript c key = Inl TypeError"

text \<open>The loop of \<^verbatim>\<open>async_setup\<close> over the entries, with the list built so far.\<close>

fun setup_entities :: "(string \<times> cfg) list \<Rightarrow> alert list \<Rightarrow> exn + alert list" where
  "setup_entities [] entities = Inr entities"
| "setup_entities ((object_id, c) # rest) entities =
     (case method_subscript c CONF_TRIGGERED of
        Inl e \<Rightarrow> Inl e
      | Inr triggered_action \<Rightarrow>
          (case method_subscript c CONF_DONE of
             Inl e \<Rightarrow> Inl e
           | Inr done_action \<Rightarrow>
               (case Alert_init object_id (conf_name c) (conf_entity_id c) (conf_state c)
                       (conf_repeat c) (conf_skip_first c) (conf_can_ack c)
                       triggered_action done_action of
                  Inl e \<Rightarrow> Inl e
                | Inr a \<Rightarrow> setup_entities rest (entities @ [a]))))"

text \<open>
  \<^verbatim>\<open>async_setup\<close>: the exception of the loop, or the returned flag with the
  entities that were built. Registering the three services and the first state write
  are on the \<^verbatim>\<open>hass\<close> side.
\<close>

definition async_setup :: "(string \<times> cfg) list \<Rightarrow> exn + bool \<times> alert list" where
  "async_setup config =
     (case setup_entities config [] of
        Inl e \<Rightarrow> Inl e
      | Inr entities \<Rightarrow> if entities = [] then Inr (False, []) else Inr (True, entities))"

subsection \<open>The status as the spec words it\<close>

text \<open>
  Section 4.1 of the spec: triggered and not acknowledged is firing (on), triggered and
  acknowledged is silenced (off), not triggered is idle.
\<close>

definition spec_status :: "bool \<Rightarrow> bool \<Rightarrow> string" where
  "spec_status trig acked =
     (if trig \<and> \<not> acked then ''on'' else if trig \<and> acked then ''off'' else ''idle'')"

subsection \<open>Counting transitions\<close>

text \<open>The steps of a run that take the alert from not triggered to triggered.\<close>

fun enter_transitions :: "event list \<Rightarrow> world \<Rightarrow> nat" where
  "enter_transitions [] w = 0"
| "enter_transitions (e # es) w =
     (if \<not> triggered (fst w) \<and> triggered (fst (fst (step e w))) then 1 else 0)
     + enter_transitions es (fst (step e w))"

text \<open>
  The watched-state updates of a run that carry the alert state and arrive while the
  alert is not triggered.
\<close>

fun matching_while_idle :: "event list \<Rightarrow> world \<Rightarrow> nat" where
  "matching_while_idle [] w = 0"
| "matching_while_idle (e # es) w =
     (case e of
        StateChange s \<Rightarrow> (if s = alert_state (fst w) \<and> \<not> triggered (fst w) then 1 else 0)
      | _ \<Rightarrow> 0)
     + matching_while_idle es (fst (step e w))"

subsection \<open>Invariants\<close>

text \<open>
  With a repeat list that is not empty, the cursor stays inside the list and a
  triggered alert holds a cancel function.
\<close>

definition cancel_ok :: "alert \<Rightarrow> bool" where
  "cancel_ok a =
     (delay a \<noteq> [] \<and> 0 \<le> next_delay a \<and> next_delay a < int (length (delay a))
      \<and> (if triggered a then cancel a \<noteq> None else True))"

text \<open>
  Listeners are pending only while the alert is triggered, and only under the handle
  that \<open>cancel\<close> holds.
\<close>

definition timers_ok :: "world \<Rightarrow> bool" where
  "timers_ok w =
     ((if triggered (fst w) then True else timers (snd w) = [])
      \<and> (case cancel (fst w) of
           None \<Rightarrow> timers (snd w) = []
         | Some k \<Rightarrow> list_all (\<lambda>p. fst p = k) (timers (snd w))))"

subsection \<open>Conditions on a run\<close>

text \<open>
  An acknowledge or a toggle call has arrived since the alert was last triggered (or
  since it was built, when it never was): the flag \<open>b\<close> is carried along the run,
  cleared by every step that leaves the alert triggered and set by such a call that
  leaves it not triggered.
\<close>

fun ack_call_since_triggered :: "bool \<Rightarrow> event list \<Rightarrow> world \<Rightarrow> bool" where
  "ack_call_since_triggered b [] w = b"
| "ack_call_since_triggered b (e # es) w =
     ack_call_since_triggered
       (if triggered (fst (fst (step e w))) then False
        else (b \<or> e = TurnOff \<or> e = Toggle))
       es (fst (step e w))"

text \<open>
  Some handler of the run raised \<^verbatim>\<open>OverflowError\<close> while \<open>cancel\<close> was still
  \<open>None\<close>, that is before any listener had been scheduled.
\<close>

fun overflow_unscheduled :: "event list \<Rightarrow> world \<Rightarrow> bool" where
  "overflow_unscheduled [] w = False"
| "overflow_unscheduled (e # es) w =
     ((cancel (fst w) = None \<and> snd (step e w) = Some OverflowError)
      \<or> overflow_unscheduled es (fst (step e w)))"

subsection \<open>Three configured alerts\<close>

text \<open>
  A door alert that repeats after 1 and then every 5 minutes and notifies on entry, a
  window alert that repeats every 10 minutes and skips the first notification, and a
  vault alert whose one delay of a million million minutes is a \<^verbatim>\<open>timedelta\<close> but
  reaches beyond year 9999 from any point in time.
\<close>

definition door_cfg :: cfg where
  "door_cfg =
     \<lparr>conf_name = ''Door open'', conf_entity_id = ''binary_sensor.door'',
      conf_state = ''on'', conf_repeat = [1, 5], conf_can_ack = True,
      conf_skip_first = False, conf_triggered = Some ''notify'',
      conf_done = Some ''clear''\<rparr>"

definition door_alert :: alert where
  "door_alert =
     Alert ''door'' ''Door open'' ''binary_sensor.door'' ''on'' [1, 5] False True
       (Some ''notify'') (Some ''clear'')"

definition window_alert :: alert where
  "window_alert =
     Alert ''window'' ''Window open'' ''binary_sensor.window'' ''on'' [10] True True
       (Some ''notify'') (Some ''clear'')"

definition vault_alert :: alert where
  "vault_alert =
     Alert ''vault'' ''Vault open'' ''binary_sensor.vault'' ''on'' [1000000000000] False True
       (Some ''notify'') (Some ''clear'')"

section \<open>Properties\<close>

lemmas coroutine_defs =
  and_then_def getitem_def datetime_add_def DATETIME_MAX_def
  async_track_point_in_time_def async_unsub_def
  async_update_ha_state_def async_schedule_update_ha_state_def
  execute_script_not_awaited_def schedule_trigger_def trigger_def done_fn_def
  begin_alerting_def end_alerting_def watched_entity_change_def
  async_turn_on_def async_turn_off_def async_toggle_def

lemmas fixture_defs =
  door_alert_def window_alert_def vault_alert_def door_cfg_def Alert_def hass0_def
  ENTITY_ID_FORMAT_def DOMAIN_def state_def STATE_ON_def STATE_OFF_def STATE_IDLE_def

subsection \<open>Status and visibility\<close>

text \<open>
  Claim C9: the reported status is a function of the pair (triggered, acknowledged)
  alone, with the values the spec gives: on (firing) when triggered and not
  acknowledged, off (silenced) when triggered and acknowledged, idle when not
  triggered; and the alert is visible, that is not hidden, exactly when it can be
  acknowledged and is triggered.
\<close>

theorem state_is_spec_status:
  "state a = spec_status (triggered a) (ack a)
   \<and> (\<not> hidden a) = (can_ack a \<and> triggered a)"
  by (simp add: state_def spec_status_def hidden_def STATE_ON_def STATE_OFF_def
      STATE_IDLE_def)

theorem state_is_spec_status_witness:
  "state door_alert = ''idle'' \<and> hidden door_alert
   \<and> state (door_alert\<lparr>triggered := True\<rparr>) = ''on''
   \<and> state (door_alert\<lparr>triggered := True, ack := True\<rparr>) = ''off''
   \<and> \<not> hidden (door_alert\<lparr>triggered := True\<rparr>)"
  using state_is_spec_status [of door_alert]
    state_is_spec_status [of "door_alert\<lparr>triggered := True\<rparr>"]
    state_is_spec_status [of "door_alert\<lparr>triggered := True, ack := True\<rparr>"]
  by (simp add: spec_status_def door_alert_def Alert_def)

subsection \<open>Acknowledge, reset and toggle\<close>

text \<open>
  What the three services do: they set the acknowledge flag and write the status, and
  touch nothing else.
\<close>

lemma async_turn_off_frame:
  "async_turn_off (a, h) =
     (a\<lparr>ack := True\<rparr>, h\<lparr>state_writes := state_writes h @ [state (a\<lparr>ack := True\<rparr>)]\<rparr>)"
  by (simp add: async_turn_off_def async_update_ha_state_def)

lemma async_turn_on_frame:
  "async_turn_on (a, h) =
     (a\<lparr>ack := False\<rparr>, h\<lparr>state_writes := state_writes h @ [state (a\<lparr>ack := False\<rparr>)]\<rparr>)"
  by (simp add: async_turn_on_def async_update_ha_state_def)

text \<open>
  Claim C8: in every state, acknowledge followed by toggle leaves the alert
  unacknowledged and reset followed by toggle leaves it acknowledged, each with every
  other field as it was; and a second acknowledge leaves the alert as the first did
  (the second call writes the same status once more, which is all it adds).
\<close>

theorem toggle_inverse_acknowledge_idempotent:
  "fst (async_toggle (async_turn_off w)) = (fst w)\<lparr>ack := False\<rparr>
   \<and> fst (async_toggle (async_turn_on w)) = (fst w)\<lparr>ack := True\<rparr>
   \<and> fst (async_turn_off (async_turn_off w)) = fst (async_turn_off w)
   \<and> snd (async_turn_off (async_turn_off w)) =
       (snd (async_turn_off w))
         \<lparr>state_writes :=
            state_writes (snd (async_turn_off w)) @ [state (fst (async_turn_off w))]\<rparr>"
  by (cases w)
    (simp add: async_toggle_def async_turn_on_def async_turn_off_def
      async_update_ha_state_def)

theorem toggle_inverse_acknowledge_idempotent_witness:
  "\<not> ack (fst (async_toggle (async_turn_off (door_alert, hass0))))
   \<and> ack (fst (async_toggle (async_turn_on (door_alert, hass0))))
   \<and> fst (async_turn_off (async_turn_off (door_alert, hass0))) = door_alert\<lparr>ack := True\<rparr>"
  using toggle_inverse_acknowledge_idempotent [of "(door_alert, hass0)"]
  by (simp add: async_turn_off_def async_update_ha_state_def)

subsection \<open>Watched-state updates\<close>

lemma step_enters:
  "(\<not> triggered (fst w) \<and> triggered (fst (fst (step e w)))) =
   (case e of
      StateChange s \<Rightarrow> s = alert_state (fst w) \<and> \<not> triggered (fst w)
    | _ \<Rightarrow> False)"
  by (cases w; cases e)
    (auto simp: coroutine_defs split: sum.splits option.splits if_splits)

lemma duplicate_update:
  "(to_state = alert_state (fst w)) = triggered (fst w) \<Longrightarrow>
   watched_entity_change to_state w = (w, None)"
  by (auto simp: watched_entity_change_def and_then_def)

lemma enter_count: "enter_transitions es w = matching_while_idle es w"
proof (induction es arbitrary: w)
  case Nil
  show ?case by simp
next
  case (Cons e es)
  show ?case
    using step_enters [of w e] Cons.IH [of "fst (step e w)"]
    by (cases e) auto
qed

text \<open>
  Claim C7: an update that repeats the current condition (the alert state while
  triggered, another state while not triggered) changes nothing and raises nothing;
  and along every sequence of events the number of steps that enter the triggered
  condition is the number of updates that carried the alert state while the alert was
  not triggered.
\<close>

theorem duplicate_update_ignored:
  "((to_state = alert_state (fst w)) = triggered (fst w) \<longrightarrow>
      watched_entity_change to_state w = (w, None))
   \<and> enter_transitions es w = matching_while_idle es w"
  using duplicate_update [of to_state w] enter_count [of es w] by simp

theorem duplicate_update_ignored_witness:
  "(''off'' = alert_state door_alert) = triggered door_alert
   \<and> watched_entity_change ''off'' (door_alert, hass0) = ((door_alert, hass0), None)
   \<and> enter_transitions
        [StateChange ''on'', StateChange ''on'', StateChange ''off'', StateChange ''off'',
         StateChange ''on'']
        (door_alert, hass0) = 2"
proof -
  have dup: "(''off'' = alert_state (fst (door_alert, hass0))) =
             triggered (fst (door_alert, hass0))"
    by (simp add: door_alert_def Alert_def)
  have cnt: "matching_while_idle
        [StateChange ''on'', StateChange ''on'', StateChange ''off'', StateChange ''off'',
         StateChange ''on'']
        (door_alert, hass0) = 2"
    by (simp add: coroutine_defs fixture_defs)
  from dup cnt
    duplicate_update_ignored [of "''off''" "(door_alert, hass0)"
      "[StateChange ''on'', StateChange ''on'', StateChange ''off'', StateChange ''off'',
        StateChange ''on'']"]
  show ?thesis by simp
qed

subsection \<open>The cancel function while triggered\<close>

lemma Alert_cancel_ok:
  "repeat \<noteq> [] \<Longrightarrow> cancel_ok (Alert object_id nm watched st repeat skip can ta da)"
  by (simp add: cancel_ok_def Alert_def)

lemma step_cancel_ok:
  assumes "cancel_ok (fst w)"
    and "\<not> (cancel (fst w) = None \<and> snd (step e w) = Some OverflowError)"
  shows "cancel_ok (fst (fst (step e w)))
         \<and> (snd (step e w) = None \<or> snd (step e w) = Some OverflowError)"
  using assms
  by (cases w; cases e)
    (auto simp: cancel_ok_def coroutine_defs split: sum.splits option.splits if_splits)

lemma run_cancel_ok:
  "cancel_ok (fst w) \<Longrightarrow> \<not> overflow_unscheduled es w \<Longrightarrow>
   cancel_ok (fst (run es w)) \<and> set (raised es w) \<subseteq> {OverflowError}"
proof (induction es arbitrary: w)
  case Nil
  then show ?case by simp
next
  case (Cons e es)
  from Cons.prems(2)
  have here: "\<not> (cancel (fst w) = None \<and> snd (step e w) = Some OverflowError)"
    and later: "\<not> overflow_unscheduled es (fst (step e w))"
    by simp_all
  from step_cancel_ok [OF Cons.prems(1) here]
  have after: "cancel_ok (fst (fst (step e w)))"
    and quiet: "snd (step e w) = None \<or> snd (step e w) = Some OverflowError"
    by simp_all
  from Cons.IH [OF after later] quiet show ?case by auto
qed

text \<open>
  Claim C10, as the code has it: for an alert built with a repeat list that is not
  empty, after every sequence of events in which no handler raised \<^verbatim>\<open>OverflowError\<close>
  before the first listener was scheduled, a triggered alert holds a cancel function
  (the field is not \<open>None\<close>), and no handler of the sequence raised \<^verbatim>\<open>TypeError\<close>
  or \<^verbatim>\<open>IndexError\<close>: in particular the call \<^verbatim>\<open>self._cancel()\<close> of
  \<open>end_alerting\<close> never met \<open>None\<close>.
\<close>

theorem cancel_set_unless_overflow:
  assumes "repeat \<noteq> []"
    and "\<not> overflow_unscheduled es (Alert object_id nm watched st repeat skip can ta da, h)"
  shows "(triggered (fst (run es (Alert object_id nm watched st repeat skip can ta da, h))) \<longrightarrow>
          cancel (fst (run es (Alert object_id nm watched st repeat skip can ta da, h))) \<noteq> None)
         \<and> TypeError \<notin> set (raised es (Alert object_id nm watched st repeat skip can ta da, h))
         \<and> IndexError \<notin> set (raised es (Alert object_id nm watched st repeat skip can ta da, h))"
proof -
  have "cancel_ok (fst (Alert object_id nm watched st repeat skip can ta da, h))"
    using assms(1) by (simp add: Alert_cancel_ok)
  from run_cancel_ok [OF this assms(2)] show ?thesis
    by (auto simp: cancel_ok_def split: if_splits)
qed

theorem cancel_set_unless_overflow_witness:
  "[1, 5] \<noteq> ([] :: int list)
   \<and> \<not> overflow_unscheduled [StateChange ''on'', TimerFire 0, StateChange ''off'']
        (door_alert, hass0)
   \<and> triggered (fst (run [StateChange ''on'', TimerFire 0] (door_alert, hass0)))
   \<and> cancel (fst (run [StateChange ''on'', TimerFire 0] (door_alert, hass0))) = Some 1
   \<and> TypeError \<notin> set (raised [StateChange ''on'', TimerFire 0, StateChange ''off'']
        (door_alert, hass0))
   \<and> \<not> overflow_unscheduled [StateChange ''on'', TimerFire 0, StateChange ''off'']
        (door_alert, hass0\<lparr>now := DATETIME_MAX - 1\<rparr>)
   \<and> raised [StateChange ''on'', TimerFire 0, StateChange ''off'']
        (door_alert, hass0\<lparr>now := DATETIME_MAX - 1\<rparr>) = [OverflowError]"
proof -
  have ne: "[1, 5] \<noteq> ([] :: int list)" by simp
  have quiet: "\<not> overflow_unscheduled [StateChange ''on'', TimerFire 0, StateChange ''off'']
      (Alert ''door'' ''Door open'' ''binary_sensor.door'' ''on'' [1, 5] False True
         (Some ''notify'') (Some ''clear''), hass0)"
    by (simp add: coroutine_defs fixture_defs)
  have late: "\<not> overflow_unscheduled [StateChange ''on'', TimerFire 0, StateChange ''off'']
      (Alert ''door'' ''Door open'' ''binary_sensor.door'' ''on'' [1, 5] False True
         (Some ''notify'') (Some ''clear''), hass0\<lparr>now := DATETIME_MAX - 1\<rparr>)"
    by (simp add: coroutine_defs fixture_defs)
  have ev: "triggered (fst (run [StateChange ''on'', TimerFire 0] (door_alert, hass0)))
    \<and> cancel (fst (run [StateChange ''on'', TimerFire 0] (door_alert, hass0))) = Some 1"
    by (simp add: coroutine_defs fixture_defs)
  have ov: "raised [StateChange ''on'', TimerFire 0, StateChange ''off'']
      (door_alert, hass0\<lparr>now := DATETIME_MAX - 1\<rparr>) = [OverflowError]"
    by (simp add: coroutine_defs fixture_defs)
  from ne quiet late ev ov cancel_set_unless_overflow [OF ne quiet]
    cancel_set_unless_overflow [OF ne late]
  show ?thesis by (simp add: door_alert_def)
qed

text \<open>
  The claim as stated fails: the vault alert has a repeat list that is not empty, and
  its constructor succeeds; entering sets \<open>triggered\<close>, then \<^verbatim>\<open>now() + delay\<close>
  raises before \<open>cancel\<close> is assigned, and the next update with another state calls
  \<open>None\<close>.
\<close>

theorem cancel_none_while_triggered_counterexample:
  "delay vault_alert \<noteq> []
   \<and> Alert_init ''vault'' ''Vault open'' ''binary_sensor.vault'' ''on'' [1000000000000]
        False True (Some ''notify'') (Some ''clear'') = Inr vault_alert
   \<and> triggered (fst (run [StateChange ''on''] (vault_alert, hass0)))
   \<and> cancel (fst (run [StateChange ''on''] (vault_alert, hass0))) = None
   \<and> raised [StateChange ''on'', StateChange ''off''] (vault_alert, hass0)
       = [OverflowError, TypeError]"
  by (simp add: coroutine_defs fixture_defs Alert_init_def timedelta_def TIMEDELTA_MIN_def
      TIMEDELTA_MAX_def)

text \<open>The vault alert's delay overflows from every point in time of the calendar.\<close>

lemma vault_delay_overflows: "0 \<le> t \<Longrightarrow> datetime_add t 1000000000000 = Inl OverflowError"
  by (simp add: datetime_add_def DATETIME_MAX_def)

text \<open>
  An overflow after the first listener was scheduled leaves the cancel function of that
  listener in place: the door alert, entered one minute before the calendar ends, is
  triggered with \<open>cancel\<close> set after its first fire raised.
\<close>

lemma late_overflow_keeps_cancel:
  "raised [StateChange ''on'', TimerFire 0] (door_alert, hass0\<lparr>now := DATETIME_MAX - 1\<rparr>)
     = [OverflowError]
   \<and> triggered (fst (run [StateChange ''on'', TimerFire 0]
        (door_alert, hass0\<lparr>now := DATETIME_MAX - 1\<rparr>)))
   \<and> cancel (fst (run [StateChange ''on'', TimerFire 0]
        (door_alert, hass0\<lparr>now := DATETIME_MAX - 1\<rparr>))) = Some 0"
  by (simp add: coroutine_defs fixture_defs)

text \<open>
  The first hypothesis is needed as well: with an empty repeat list, entering raises
  \<^verbatim>\<open>IndexError\<close> after \<open>triggered\<close> is set and before \<open>cancel\<close> is, and the next
  update with another state calls \<open>None\<close>.
\<close>

lemma empty_repeat_raises:
  "raised [StateChange ''on'', StateChange ''off''] (door_alert\<lparr>delay := []\<rparr>, hass0)
     = [IndexError, TypeError]
   \<and> triggered (fst (run [StateChange ''on'', StateChange ''off'']
        (door_alert\<lparr>delay := []\<rparr>, hass0)))
   \<and> cancel (fst (run [StateChange ''on'', StateChange ''off'']
        (door_alert\<lparr>delay := []\<rparr>, hass0))) = None"
  by (simp add: coroutine_defs fixture_defs)

subsection \<open>The idle alert\<close>

lemma map_of_all: "list_all (\<lambda>p. fst p = k) xs \<Longrightarrow> map_of xs k' = Some t \<Longrightarrow> k' = k"
  by (induction xs) (auto split: if_splits)

lemma filter_all: "list_all (\<lambda>p. fst p = k) xs \<Longrightarrow> filter (\<lambda>p. fst p \<noteq> k) xs = []"
  by (induction xs) auto

lemma trigger_timers_ok: "timers h = [] \<Longrightarrow> timers_ok (fst (trigger (a, h)))"
  by (auto simp: timers_ok_def coroutine_defs split: sum.splits option.splits if_splits)

lemma fire_clears:
  assumes "timers_ok (a, h)" and "map_of (timers h) k = Some t"
  shows "timers (async_unsub k h) = []"
proof (cases "cancel a")
  case None
  with assms show ?thesis by (simp add: timers_ok_def)
next
  case (Some c)
  with assms have all: "list_all (\<lambda>p. fst p = c) (timers h)"
    by (simp add: timers_ok_def)
  from map_of_all [OF all assms(2)] have "k = c" .
  with all show ?thesis by (simp add: async_unsub_def filter_all)
qed

lemma step_timers_ok:
  assumes ok: "timers_ok w"
  shows "timers_ok (fst (step e w))"
proof (cases w)
  case (Pair a h)
  show ?thesis
  proof (cases e)
    case (StateChange s)
    with Pair ok show ?thesis
      by (auto simp: timers_ok_def coroutine_defs filter_all
          split: sum.splits option.splits if_splits)
  next
    case (TimerFire k)
    show ?thesis
    proof (cases "map_of (timers h) k")
      case None
      with Pair TimerFire ok show ?thesis by simp
    next
      case (Some t)
      from ok Pair Some have "timers (async_unsub k h) = []"
        by (simp add: fire_clears)
      then have "timers ((async_unsub k h)\<lparr>now := max (now h) t\<rparr>) = []"
        by simp
      then have "timers_ok (fst (trigger (a, (async_unsub k h)\<lparr>now := max (now h) t\<rparr>)))"
        by (rule trigger_timers_ok)
      with Pair TimerFire Some show ?thesis by simp
    qed
  next
    case TurnOn
    with Pair ok show ?thesis
      by (auto simp: timers_ok_def async_turn_on_def async_update_ha_state_def
          split: option.splits)
  next
    case TurnOff
    with Pair ok show ?thesis
      by (auto simp: timers_ok_def async_turn_off_def async_update_ha_state_def
          split: option.splits)
  next
    case Toggle
    with Pair ok show ?thesis
      by (auto simp: timers_ok_def async_toggle_def async_turn_on_def async_turn_off_def
          async_update_ha_state_def split: option.splits)
  next
    case (Tick d)
    with Pair ok show ?thesis
      by (auto simp: timers_ok_def split: option.splits)
  qed
qed

lemma run_timers_ok: "timers_ok w \<Longrightarrow> timers_ok (run es w)"
  by (induction es arbitrary: w) (simp_all add: step_timers_ok)

text \<open>
  An alert that is not triggered is acknowledged only if an acknowledge or a toggle
  call has arrived since it was last triggered: one step, then the run.
\<close>

lemma step_idle_unacked:
  assumes "triggered (fst w) \<or> b \<or> \<not> ack (fst w)"
  shows "triggered (fst (fst (step e w)))
         \<or> (b \<or> e = TurnOff \<or> e = Toggle)
         \<or> \<not> ack (fst (fst (step e w)))"
  using assms
  by (cases w; cases e)
    (auto simp: coroutine_defs split: sum.splits option.splits if_splits)

lemma exit_clears_ack:
  assumes "triggered (fst w)" and "\<not> triggered (fst (fst (step e w)))"
  shows "\<not> ack (fst (fst (step e w)))"
  using assms
  by (cases w; cases e)
    (auto simp: coroutine_defs split: sum.splits option.splits if_splits)

lemma run_idle_unacked:
  "triggered (fst w) \<or> b \<or> \<not> ack (fst w) \<Longrightarrow>
   (triggered (fst w) \<longrightarrow> \<not> b) \<Longrightarrow>
   triggered (fst (run es w)) \<or> ack_call_since_triggered b es w \<or> \<not> ack (fst (run es w))"
proof (induction es arbitrary: b w)
  case Nil
  then show ?case by simp
next
  case (Cons e es)
  let ?w' = "fst (step e w)"
  let ?b' = "if triggered (fst ?w') then False else (b \<or> e = TurnOff \<or> e = Toggle)"
  have inv: "triggered (fst ?w') \<or> ?b' \<or> \<not> ack (fst ?w')"
    using step_idle_unacked [OF Cons.prems(1), of e] by auto
  have clear: "triggered (fst ?w') \<longrightarrow> \<not> ?b'"
    by simp
  from Cons.IH [OF inv clear] show ?case by simp
qed

text \<open>
  Claim C1, as the code has it: for an alert as the constructor builds it and every
  sequence of events, when the alert is not triggered no listener is pending; and it is
  not acknowledged either, unless an acknowledge or a toggle call has arrived since the
  alert was last triggered (or since it was built). (The field \<open>cancel\<close> itself is
  never reset.)
\<close>

theorem idle_has_no_timer:
  assumes "\<not> triggered (fst (run es (Alert object_id nm watched st repeat skip can ta da, hass0)))"
  shows "timers (snd (run es (Alert object_id nm watched st repeat skip can ta da, hass0))) = []
         \<and> (\<not> ack_call_since_triggered False es
                (Alert object_id nm watched st repeat skip can ta da, hass0) \<longrightarrow>
            \<not> ack (fst (run es (Alert object_id nm watched st repeat skip can ta da, hass0))))"
proof -
  let ?w0 = "(Alert object_id nm watched st repeat skip can ta da, hass0)"
  have "timers_ok ?w0"
    by (simp add: timers_ok_def Alert_def hass0_def)
  then have "timers_ok (run es ?w0)"
    by (rule run_timers_ok)
  with assms have no_timer: "timers (snd (run es ?w0)) = []"
    by (simp add: timers_ok_def)
  have start: "triggered (fst ?w0) \<or> False \<or> \<not> ack (fst ?w0)"
    by (simp add: Alert_def)
  have "triggered (fst ?w0) \<longrightarrow> \<not> False"
    by simp
  from run_idle_unacked [OF start this, of es] assms no_timer show ?thesis
    by blast
qed

theorem idle_has_no_timer_witness:
  "\<not> triggered (fst (run [StateChange ''on'', TurnOff, TimerFire 0, StateChange ''off'']
        (door_alert, hass0)))
   \<and> \<not> ack_call_since_triggered False
        [StateChange ''on'', TurnOff, TimerFire 0, StateChange ''off''] (door_alert, hass0)
   \<and> ack (fst (run [StateChange ''on'', TurnOff, TimerFire 0] (door_alert, hass0)))
   \<and> timers (snd (run [StateChange ''on'', TurnOff, TimerFire 0, StateChange ''off'']
        (door_alert, hass0))) = []
   \<and> \<not> ack (fst (run [StateChange ''on'', TurnOff, TimerFire 0, StateChange ''off'']
        (door_alert, hass0)))"
proof -
  have idle: "\<not> triggered
      (fst (run [StateChange ''on'', TurnOff, TimerFire 0, StateChange ''off'']
        (Alert ''door'' ''Door open'' ''binary_sensor.door'' ''on'' [1, 5] False True
           (Some ''notify'') (Some ''clear''), hass0)))"
    by (simp add: coroutine_defs fixture_defs)
  have calls: "\<not> ack_call_since_triggered False
      [StateChange ''on'', TurnOff, TimerFire 0, StateChange ''off'']
      (Alert ''door'' ''Door open'' ''binary_sensor.door'' ''on'' [1, 5] False True
         (Some ''notify'') (Some ''clear''), hass0)"
    by (simp add: coroutine_defs fixture_defs)
  have acked: "ack (fst (run [StateChange ''on'', TurnOff, TimerFire 0] (door_alert, hass0)))"
    by (simp add: coroutine_defs fixture_defs)
  from idle calls acked idle_has_no_timer [OF idle] show ?thesis
    by (simp add: door_alert_def)
qed

text \<open>
  The claim as stated fails twice: an acknowledge call on the idle alert sets the flag,
  and after entering and leaving the triggered condition the field \<open>cancel\<close> still
  holds the handle of the removed listener.
\<close>

theorem idle_acknowledged_counterexample:
  "\<not> triggered (fst (run [TurnOff] (door_alert, hass0)))
   \<and> ack (fst (run [TurnOff] (door_alert, hass0)))
   \<and> \<not> triggered (fst (run [StateChange ''on'', StateChange ''off''] (door_alert, hass0)))
   \<and> cancel (fst (run [StateChange ''on'', StateChange ''off''] (door_alert, hass0)))
       = Some 0"
  by (simp add: coroutine_defs fixture_defs)

text \<open>
  The condition leaves out no more than such calls: an acknowledge call on the idle
  alert is forgotten once the alert has been triggered and has left again, and calls
  that all arrive while the alert is triggered never count.
\<close>

lemma idle_call_forgotten:
  "\<not> ack_call_since_triggered False [TurnOff, StateChange ''on'', StateChange ''off'']
        (door_alert, hass0)
   \<and> ack_call_since_triggered False [TurnOff] (door_alert, hass0)"
  by (simp add: coroutine_defs fixture_defs)

subsection \<open>What the coroutines do\<close>

text \<open>A fire that finds the alert not triggered changes nothing.\<close>

lemma trigger_not_triggered: "\<not> triggered a \<Longrightarrow> trigger (a, h) = ((a, h), None)"
  by (simp add: trigger_def)

text \<open>
  A fire on a triggered alert with the cursor inside the list and the next point in
  time inside the calendar: unless acknowledged, the done flag is set and a coroutine
  for the triggered script is built; in both cases the delay under the cursor is read,
  a listener is added at now plus that delay, and the cursor moves on, stopping at the
  last index.
\<close>

lemma trigger_reschedules:
  assumes "triggered a" and "0 \<le> next_delay a" and "next_delay a < int (length (delay a))"
    and "0 \<le> now h + delay a ! nat (next_delay a)"
    and "now h + delay a ! nat (next_delay a) \<le> DATETIME_MAX"
  shows "trigger (a, h) =
    ((a\<lparr>execute_done_script := (execute_done_script a \<or> \<not> ack a),
        cancel := Some (next_handle h),
        next_delay := min (next_delay a + 1) (int (length (delay a)) - 1)\<rparr>,
      h\<lparr>never_awaited :=
          never_awaited h @ (if ack a then [] else [Some (triggered_script a)]),
        timers := timers h @ [(next_handle h, now h + delay a ! nat (next_delay a))],
        next_handle := Suc (next_handle h)\<rparr>), None)"
  using assms by (simp add: coroutine_defs)

text \<open>
  Entering, for a repeat list that is not empty and a first point in time inside the
  calendar.
\<close>

lemma begin_alerting_effect:
  assumes "delay a \<noteq> []"
    and "0 \<le> now h + delay a ! 0" and "now h + delay a ! 0 \<le> DATETIME_MAX"
  shows "begin_alerting (a, h) =
    ((a\<lparr>ack := False, triggered := True,
        execute_done_script := (execute_done_script a \<or> \<not> skip_first a),
        cancel := Some (next_handle h),
        next_delay := min 1 (int (length (delay a)) - 1)\<rparr>,
      h\<lparr>never_awaited :=
          never_awaited h @ (if skip_first a then [] else [Some (triggered_script a)]),
        timers := timers h @ [(next_handle h, now h + delay a ! 0)],
        next_handle := Suc (next_handle h),
        scheduled_writes := Suc (scheduled_writes h)\<rparr>), None)"
  using assms by (simp add: coroutine_defs)

text \<open>Leaving, for an alert that holds a cancel function.\<close>

lemma end_alerting_effect:
  assumes "cancel a = Some k"
  shows "end_alerting (a, h) =
    ((a\<lparr>ack := False, triggered := False, execute_done_script := False\<rparr>,
      h\<lparr>timers := filter (\<lambda>p. fst p \<noteq> k) (timers h),
        never_awaited :=
          never_awaited h @ (if execute_done_script a then [Some (done_script a)] else []),
        scheduled_writes := Suc (scheduled_writes h)\<rparr>), None)"
  using assms by (simp add: coroutine_defs)

text \<open>
  No handler ever reaches \<^verbatim>\<open>script.async_run\<close>: the only calls of
  \<^verbatim>\<open>_execute_script\<close> are the two that are not awaited.
\<close>

lemma step_runs_no_script: "script_runs (snd (fst (step e w))) = script_runs (snd w)"
  by (cases w; cases e)
    (auto simp: coroutine_defs split: sum.splits option.splits if_splits)

lemma run_runs_no_script: "script_runs (snd (run es w)) = script_runs (snd w)"
  by (induction es arbitrary: w) (simp_all add: step_runs_no_script)

text \<open>Had the call been awaited, the script would have run.\<close>

lemma execute_script_runs:
  "script_runs (snd (execute_script (Some sc) (a, h))) = script_runs h @ [sc]"
  by (simp add: execute_script_def async_run_def)

subsection \<open>The door alert: repeat after 1, then every 5 minutes\<close>

text \<open>
  The listeners of the door alert: entered at minute 0, the fires are due at minutes
  1, 6, 11 and 16, the cursor staying on the last delay.
\<close>

lemma door_schedule:
  "timers (snd (run [StateChange ''on''] (door_alert, hass0))) = [(0, 1)]
   \<and> timers (snd (run [StateChange ''on'', TimerFire 0] (door_alert, hass0))) = [(1, 6)]
   \<and> timers (snd (run [StateChange ''on'', TimerFire 0, TimerFire 1] (door_alert, hass0)))
       = [(2, 11)]
   \<and> timers (snd (run [StateChange ''on'', TimerFire 0, TimerFire 1, TimerFire 2]
        (door_alert, hass0))) = [(3, 16)]"
  by (simp add: coroutine_defs fixture_defs)

text \<open>
  Claim C2, on the code: the door alert is entered and its first listener fires while
  it is triggered and not acknowledged. The done flag is set, the delay under the
  cursor is read, the cursor stays on the last index and the next listener is due at
  minute 6; but the triggered script has not run, at entry or at the fire: both calls
  built a coroutine that nothing awaits.
\<close>

theorem timer_fire_runs_no_script:
  "script_runs (snd (run [StateChange ''on'', TimerFire 0] (door_alert, hass0))) = []
   \<and> never_awaited (snd (run [StateChange ''on'', TimerFire 0] (door_alert, hass0)))
       = [Some (Script (Some ''notify'')), Some (Script (Some ''notify''))]
   \<and> execute_done_script (fst (run [StateChange ''on'', TimerFire 0] (door_alert, hass0)))
   \<and> next_delay (fst (run [StateChange ''on'', TimerFire 0] (door_alert, hass0))) = 1
   \<and> timers (snd (run [StateChange ''on'', TimerFire 0] (door_alert, hass0))) = [(1, 6)]"
  by (simp add: coroutine_defs fixture_defs)

text \<open>
  Claim C3, on the code: the watched entity reports the alert state to the idle door
  alert, which does not skip the first notification. The alert is triggered and not
  acknowledged, the done flag is set and the first listener is due after the first
  delay, with the cursor moved to the next one; but the triggered script has not run.
\<close>

theorem entry_runs_no_script:
  "triggered (fst (fst (watched_entity_change ''on'' (door_alert, hass0))))
   \<and> \<not> ack (fst (fst (watched_entity_change ''on'' (door_alert, hass0))))
   \<and> execute_done_script (fst (fst (watched_entity_change ''on'' (door_alert, hass0))))
   \<and> next_delay (fst (fst (watched_entity_change ''on'' (door_alert, hass0)))) = 1
   \<and> timers (snd (fst (watched_entity_change ''on'' (door_alert, hass0)))) = [(0, 1)]
   \<and> never_awaited (snd (fst (watched_entity_change ''on'' (door_alert, hass0))))
       = [Some (Script (Some ''notify''))]
   \<and> script_runs (snd (fst (watched_entity_change ''on'' (door_alert, hass0)))) = []"
  by (simp add: coroutine_defs fixture_defs)

text \<open>
  With \<open>skip_first\<close> the entry only schedules: no call of the script, no done flag,
  the listener due after the first delay.
\<close>

lemma window_entry:
  "triggered (fst (fst (watched_entity_change ''on'' (window_alert, hass0))))
   \<and> \<not> execute_done_script (fst (fst (watched_entity_change ''on'' (window_alert, hass0))))
   \<and> timers (snd (fst (watched_entity_change ''on'' (window_alert, hass0)))) = [(0, 10)]
   \<and> never_awaited (snd (fst (watched_entity_change ''on'' (window_alert, hass0)))) = []"
  by (simp add: coroutine_defs fixture_defs)

text \<open>
  Claim C4, on the code: the door alert is entered, which sets the done flag, and then
  the watched entity reports another state. The listener is removed, the alert is
  neither triggered nor acknowledged and the done flag is cleared; but the done script
  has not run: \<open>done_fn\<close> built a coroutine for it that nothing awaits.
\<close>

theorem exit_runs_no_done_script:
  "\<not> triggered (fst (run [StateChange ''on'', StateChange ''off''] (door_alert, hass0)))
   \<and> \<not> ack (fst (run [StateChange ''on'', StateChange ''off''] (door_alert, hass0)))
   \<and> \<not> execute_done_script
        (fst (run [StateChange ''on'', StateChange ''off''] (door_alert, hass0)))
   \<and> timers (snd (run [StateChange ''on'', StateChange ''off''] (door_alert, hass0))) = []
   \<and> never_awaited (snd (run [StateChange ''on'', StateChange ''off''] (door_alert, hass0)))
       = [Some (Script (Some ''notify'')), Some (Script (Some ''clear''))]
   \<and> script_runs (snd (run [StateChange ''on'', StateChange ''off''] (door_alert, hass0)))
       = []"
  by (simp add: coroutine_defs fixture_defs)

text \<open>
  Claim C6, on the code: the door alert is entered and acknowledged, its listener
  fires, it is reset, and the next listener fires. The acknowledged fire builds no
  coroutine and schedules the next listener for minute 6; the fire after the reset
  builds one again and schedules for minute 11; but the triggered script has not run
  after the reset either.
\<close>

theorem reset_runs_no_script:
  "never_awaited (snd (run [StateChange ''on'', TurnOff, TimerFire 0] (door_alert, hass0)))
     = [Some (Script (Some ''notify''))]
   \<and> timers (snd (run [StateChange ''on'', TurnOff, TimerFire 0] (door_alert, hass0)))
       = [(1, 6)]
   \<and> never_awaited
        (snd (run [StateChange ''on'', TurnOff, TimerFire 0, TurnOn, TimerFire 1]
           (door_alert, hass0)))
       = [Some (Script (Some ''notify'')), Some (Script (Some ''notify''))]
   \<and> timers
        (snd (run [StateChange ''on'', TurnOff, TimerFire 0, TurnOn, TimerFire 1]
           (door_alert, hass0))) = [(2, 11)]
   \<and> script_runs
        (snd (run [StateChange ''on'', TurnOff, TimerFire 0, TurnOn, TimerFire 1]
           (door_alert, hass0))) = []"
  by (simp add: coroutine_defs fixture_defs)

subsection \<open>Set-up\<close>

lemma async_setup_empty: "async_setup [] = Inr (False, [])"
  by (simp add: async_setup_def)

lemma async_setup_raises: "config \<noteq> [] \<Longrightarrow> async_setup config = Inl TypeError"
  by (cases config) (auto simp: async_setup_def method_subscript_def)

text \<open>
  Claim C5, on the code: for the configuration with the one door entry, which the
  schema accepts, \<open>async_setup\<close> raises \<^verbatim>\<open>TypeError\<close> in the first pass of its
  loop and builds no alert.
\<close>

theorem async_setup_door_raises: "async_setup [(''door'', door_cfg)] = Inl TypeError"
  by (simp add: async_setup_def method_subscript_def)

end
